theory Spec2Isabelle
  imports Main "HOL-Library.Word"
begin

section \<open>Colors, gradients and palettes\<close>

type_synonym uint8_t = "8 word"

text \<open>
  A color is three bytes. A \<open>CRGBPalette16\<close> is a table of colors; the well-formed ones
  have exactly 16 entries (\<open>wf_palette\<close>).
\<close>

record CRGB =
  red :: uint8_t
  green :: uint8_t
  blue :: uint8_t

type_synonym CRGBPalette16 = "CRGB list"

definition wf_palette :: "CRGBPalette16 \<Rightarrow> bool" where
  "wf_palette p = (length p = 16)"

text \<open>
  \<open>DEFINE_GRADIENT_PALETTE\<close> lays a gradient out as rows of four bytes:
  position, red, green, blue. The five tables of \<open>colors.h\<close>, rows and order as written.
\<close>

type_synonym gradient = "(uint8_t \<times> uint8_t \<times> uint8_t \<times> uint8_t) list"

definition gp_firePalette :: gradient where
  "gp_firePalette =
     [(0, 255, 0, 0),
      (50, 139, 0, 0),
      (100, 0, 0, 0),
      (200, 255, 140, 0),
      (255, 255, 215, 0)]"

definition gp_tealGreenGold :: gradient where
  "gp_tealGreenGold =
     [(0, 34, 139, 34),
      (85, 0, 255, 0),
      (170, 255, 215, 0),
      (255, 255, 140, 0)]"

definition gp_redRoseLavendar :: gradient where
  "gp_redRoseLavendar =
     [(0, 128, 0, 0),
      (85, 210, 105, 30),
      (170, 255, 127, 80),
      (255, 230, 230, 250)]"

definition gp_icePalette :: gradient where
  "gp_icePalette =
     [(0, 224, 240, 255),
      (127, 31, 147, 255),
      (255, 48, 64, 72)]"

definition gp_fairyPalette :: gradient where
  "gp_fairyPalette =
     [(0, 63, 57, 11),
      (127, 127, 114, 22),
      (224, 255, 227, 45),
      (255, 255, 255, 255)]"

text \<open>
  Modelled from the spec: the conversion of a gradient into a \<open>CRGBPalette16\<close>
  (\<open>CRGBPalette16 firePalette = _firePalette;\<close> calls a constructor of the LED library,
  which is not in \<open>colors.h\<close>). The spec: "a fixed-size indexable array of 16 interpolated
  colors, derived once from a Gradient Palette by evenly sampling/interpolating across its
  stops". Entry \<open>i\<close> of the 16 samples position \<open>17 * i\<close> (0, 17, ..., 255); its color is
  the linear interpolation, channel by channel, between the two stops around that position.
  The interpolation is computed on integers and stored into bytes.
\<close>

definition lerp :: "int \<Rightarrow> int \<Rightarrow> int \<Rightarrow> int \<Rightarrow> int \<Rightarrow> int" where
  "lerp p0 v0 p1 v1 p =
     (if p1 \<le> p0 then v0 else v0 + ((v1 - v0) * (p - p0)) div (p1 - p0))"

fun sample :: "gradient \<Rightarrow> int \<Rightarrow> int \<times> int \<times> int" where
  "sample [] p = (0, 0, 0)"
| "sample [(q, cr, cg, cb)] p = (uint cr, uint cg, uint cb)"
| "sample ((q0, r0, g0, b0) # (q1, r1, g1, b1) # rest) p =
     (if p \<le> uint q0 then (uint r0, uint g0, uint b0)
      else if p \<le> uint q1 then
        (lerp (uint q0) (uint r0) (uint q1) (uint r1) p,
         lerp (uint q0) (uint g0) (uint q1) (uint g1) p,
         lerp (uint q0) (uint b0) (uint q1) (uint b1) p)
      else sample ((q1, r1, g1, b1) # rest) p)"

definition positions :: "int list" where
  "positions = map (\<lambda>i. 17 * int i) [0..<16]"

definition samples :: "gradient \<Rightarrow> (int \<times> int \<times> int) list" where
  "samples gp = map (sample gp) positions"

definition to_CRGB :: "int \<times> int \<times> int \<Rightarrow> CRGB" where
  "to_CRGB c = (case c of (x, y, z) \<Rightarrow> \<lparr>red = word_of_int x, green = word_of_int y, blue = word_of_int z\<rparr>)"

definition resolve :: "gradient \<Rightarrow> CRGBPalette16" where
  "resolve gp = map to_CRGB (samples gp)"

definition valid_color :: "int \<times> int \<times> int \<Rightarrow> bool" where
  "valid_color c = (case c of (x, y, z) \<Rightarrow>
     0 \<le> x \<and> x \<le> 255 \<and> 0 \<le> y \<and> y \<le> 255 \<and> 0 \<le> z \<and> z \<le> 255)"

definition channels :: "CRGB \<Rightarrow> int \<times> int \<times> int" where
  "channels c = (uint (red c), uint (green c), uint (blue c))"

definition firePalette :: CRGBPalette16 where
  "firePalette = resolve gp_firePalette"

definition tealGreenGold :: CRGBPalette16 where
  "tealGreenGold = resolve gp_tealGreenGold"

definition redRoseLavendar :: CRGBPalette16 where
  "redRoseLavendar = resolve gp_redRoseLavendar"

definition icePalette :: CRGBPalette16 where
  "icePalette = resolve gp_icePalette"

definition fairyPalette :: CRGBPalette16 where
  "fairyPalette = resolve gp_fairyPalette"

text \<open>The active list as configured: every entry but the first is commented out.\<close>

definition activePalettes :: "CRGBPalette16 list" where
  "activePalettes = [firePalette]"

section \<open>The palette cycler\<close>

text \<open>
  The process-wide state: the two palette buffers and the function-local static
  \<open>whichPalette\<close> of \<open>setNextColorPalette\<close>.
\<close>

record cycler =
  whichPalette :: uint8_t
  currentPalette :: CRGBPalette16
  targetPalette :: CRGBPalette16

datatype error = ModuloByZero | IndexOutOfBounds

text \<open>
  Startup: \<open>static uint8_t whichPalette = -1\<close> stores the byte 255; both buffers copy
  \<open>*(activePalettes[0])\<close>, which reads out of bounds when the list is empty.
\<close>

definition startup :: "CRGBPalette16 list \<Rightarrow> error + cycler" where
  "startup aps =
     (case aps of
        [] \<Rightarrow> Inl IndexOutOfBounds
      | p # _ \<Rightarrow> Inr \<lparr>whichPalette = - 1, currentPalette = p, targetPalette = p\<rparr>)"

text \<open>
  Modelled from the spec: \<open>addmod8\<close> (a helper of the LED library, not in \<open>colors.h\<close>).
  The spec: "increments the Cycling Index modulo the Active Palette List length
  (wrap-around, not clamp)", on "a single-byte counter"; with a zero modulus "the
  modulo-wrap operation on Cycling Index [is] undefined (division/modulo by zero)".
  The sum is a byte sum, so it wraps at 256 before the modulus is taken.
\<close>

definition addmod8 :: "uint8_t \<Rightarrow> uint8_t \<Rightarrow> uint8_t \<Rightarrow> error + uint8_t" where
  "addmod8 a b m = (if m = 0 then Inl ModuloByZero else Inr ((a + b) mod m))"

text \<open>
  \<open>numberOfPalettes\<close> is the element count of the array stored into a \<open>const uint8_t\<close>.
  The array read \<open>activePalettes[whichPalette]\<close> is a branch of its own: out of range it
  is an error, not a value.
\<close>

definition setNextColorPalette :: "CRGBPalette16 list \<Rightarrow> cycler \<Rightarrow> error + cycler" where
  "setNextColorPalette aps s =
     (let numberOfPalettes = (of_nat (length aps) :: uint8_t) in
      case addmod8 (whichPalette s) 1 numberOfPalettes of
        Inl e \<Rightarrow> Inl e
      | Inr w \<Rightarrow>
          if unat w < length aps
          then Inr (s\<lparr>whichPalette := w, targetPalette := aps ! unat w\<rparr>)
          else Inl IndexOutOfBounds)"

text \<open>
  Modelled from the spec: \<open>nblendPaletteTowardPalette\<close> (the blending primitive of the LED
  library, not in \<open>colors.h\<close>). The spec: "given two 16-entry color tables and a step
  magnitude, advances the first toward the second in place"; it "moves each of the 16
  channel values of Current Palette one small fixed step [...] toward the corresponding
  channel value of Target Palette, per color channel independently, saturating at the
  target (does not overshoot)"; "a bounded linear step, clamped so it never passes the
  target".
\<close>

definition blend_channel :: "uint8_t \<Rightarrow> uint8_t \<Rightarrow> uint8_t \<Rightarrow> uint8_t" where
  "blend_channel step c t =
     (if c < t then (if t - c < step then t else c + step)
      else if t < c then (if c - t < step then t else c - step)
      else c)"

definition blend_CRGB :: "uint8_t \<Rightarrow> CRGB \<Rightarrow> CRGB \<Rightarrow> CRGB" where
  "blend_CRGB step c t =
     \<lparr>red = blend_channel step (red c) (red t),
      green = blend_channel step (green c) (green t),
      blue = blend_channel step (blue c) (blue t)\<rparr>"

definition nblendPaletteTowardPalette ::
    "CRGBPalette16 \<Rightarrow> CRGBPalette16 \<Rightarrow> uint8_t \<Rightarrow> CRGBPalette16" where
  "nblendPaletteTowardPalette current target step = map2 (blend_CRGB step) current target"

text \<open>
  The body of the \<open>EVERY_N_MILLISECONDS(10)\<close> block, and \<open>cycleColorPalette\<close> itself.
  Whether each of the two timers fires in a given call depends on the clock; the two
  booleans say which of them did.
\<close>

definition Blend_Step :: "cycler \<Rightarrow> cycler" where
  "Blend_Step s =
     s\<lparr>currentPalette := nblendPaletteTowardPalette (currentPalette s) (targetPalette s) 12\<rparr>"

definition cycleColorPalette ::
    "CRGBPalette16 list \<Rightarrow> bool \<Rightarrow> bool \<Rightarrow> cycler \<Rightarrow> error + cycler" where
  "cycleColorPalette aps every_n_seconds every_n_milliseconds s =
     (case (if every_n_seconds then setNextColorPalette aps s else Inr s) of
        Inl e \<Rightarrow> Inl e
      | Inr s1 \<Rightarrow> Inr (if every_n_milliseconds then Blend_Step s1 else s1))"

text \<open>\<open>K\<close> calls of \<open>setNextColorPalette\<close> in a row, and a run of main-loop iterations.\<close>

fun calls :: "nat \<Rightarrow> CRGBPalette16 list \<Rightarrow> cycler \<Rightarrow> error + cycler" where
  "calls 0 aps s = Inr s"
| "calls (Suc k) aps s =
     (case setNextColorPalette aps s of Inl e \<Rightarrow> Inl e | Inr s1 \<Rightarrow> calls k aps s1)"

fun run :: "CRGBPalette16 list \<Rightarrow> (bool \<times> bool) list \<Rightarrow> cycler \<Rightarrow> error + cycler" where
  "run aps [] s = Inr s"
| "run aps ((sec, ms) # ticks) s =
     (case cycleColorPalette aps sec ms s of Inl e \<Rightarrow> Inl e | Inr s1 \<Rightarrow> run aps ticks s1)"

text \<open>Distances, channel by channel, and the largest one over a pair of palettes.\<close>

definition chan_dist :: "uint8_t \<Rightarrow> uint8_t \<Rightarrow> nat" where
  "chan_dist c t = nat \<bar>uint c - uint t\<bar>"

definition CRGB_dist :: "CRGB \<Rightarrow> CRGB \<Rightarrow> nat" where
  "CRGB_dist c t =
     max (chan_dist (red c) (red t))
       (max (chan_dist (green c) (green t)) (chan_dist (blue c) (blue t)))"

definition palette_dist :: "CRGBPalette16 \<Rightarrow> CRGBPalette16 \<Rightarrow> nat" where
  "palette_dist current target = foldr max (map2 CRGB_dist current target) 0"

section \<open>Resolving a gradient\<close>

lemma resolve_length: "length (resolve gp) = 16"
  by (simp add: resolve_def samples_def positions_def)

lemma channels_to_CRGB: "valid_color c \<Longrightarrow> channels (to_CRGB c) = c"
  by (cases c) (simp add: valid_color_def channels_def to_CRGB_def uint_word_of_int take_bit_int_eq_self)

lemma resolve_channels:
  "list_all valid_color (samples gp) \<Longrightarrow> map channels (resolve gp) = samples gp"
  by (simp add: resolve_def list_all_iff channels_to_CRGB map_idI)

lemma lerp_range:
  assumes "0 \<le> v0" "v0 \<le> 255" "0 \<le> v1" "v1 \<le> 255" "p0 < p" "p \<le> p1"
  shows "0 \<le> lerp p0 v0 p1 v1 p \<and> lerp p0 v0 p1 v1 p \<le> 255"
proof -
  have d: "0 < p1 - p0" using assms by simp
  have k: "0 \<le> p - p0" "p - p0 \<le> p1 - p0" using assms by simp_all
  show ?thesis
  proof (cases "v0 \<le> v1")
    case True
    then have "0 \<le> (v1 - v0) * (p - p0)" using k by simp
    then have lo: "0 \<le> (v1 - v0) * (p - p0) div (p1 - p0)" using d
      by (simp add: pos_imp_zdiv_nonneg_iff)
    have "(v1 - v0) * (p - p0) \<le> (v1 - v0) * (p1 - p0)"
      using True k by (simp add: mult_left_mono)
    then have "(v1 - v0) * (p - p0) div (p1 - p0) \<le> (v1 - v0) * (p1 - p0) div (p1 - p0)"
      using d by (rule zdiv_mono1)
    moreover have "(v1 - v0) * (p1 - p0) div (p1 - p0) = v1 - v0" using d by simp
    ultimately have hi: "(v1 - v0) * (p - p0) div (p1 - p0) \<le> v1 - v0" by simp
    show ?thesis using lo hi assms d by (simp add: lerp_def)
  next
    case False
    then have "(v1 - v0) * (p - p0) \<le> 0" using k by (simp add: mult_le_0_iff)
    then have hi: "(v1 - v0) * (p - p0) div (p1 - p0) \<le> 0" using d
      by (metis div_0 zdiv_mono1)
    have "(v1 - v0) * (p1 - p0) \<le> (v1 - v0) * (p - p0)"
      using False k by (simp add: mult_left_mono_neg)
    then have "(v1 - v0) * (p1 - p0) div (p1 - p0) \<le> (v1 - v0) * (p - p0) div (p1 - p0)"
      using d by (rule zdiv_mono1)
    moreover have "(v1 - v0) * (p1 - p0) div (p1 - p0) = v1 - v0" using d by simp
    ultimately have lo: "v1 - v0 \<le> (v1 - v0) * (p - p0) div (p1 - p0)" by simp
    show ?thesis using lo hi assms d by (simp add: lerp_def)
  qed
qed

lemma uint8_range: "0 \<le> uint (w :: uint8_t) \<and> uint w \<le> 255"
  using uint_lt2p [of w] by simp

lemma sample_valid: "valid_color (sample gp p)"
proof (induction gp p rule: sample.induct)
  case (1 p)
  show ?case by (simp add: valid_color_def)
next
  case (2 q cr cg cb p)
  show ?case by (simp add: valid_color_def uint8_range)
next
  case (3 q0 r0 g0 b0 q1 r1 g1 b1 rest p)
  show ?case
  proof (cases "p \<le> uint q0")
    case True
    then show ?thesis by (simp add: valid_color_def uint8_range)
  next
    case False
    show ?thesis
    proof (cases "p \<le> uint q1")
      case True
      have "\<And>a b. 0 \<le> lerp (uint q0) (uint (a::uint8_t)) (uint q1) (uint (b::uint8_t)) p
                 \<and> lerp (uint q0) (uint a) (uint q1) (uint b) p \<le> 255"
        using False True by (intro lerp_range) (simp_all add: uint8_range)
      then show ?thesis using False True by (simp add: valid_color_def)
    next
      case F2: False
      then show ?thesis using False 3 by simp
    qed
  qed
qed

lemma samples_valid: "list_all valid_color (samples gp)"
  by (simp add: samples_def list_all_iff sample_valid)

section \<open>The resolved palettes, entry by entry\<close>

lemma firePalette_entries:
  "firePalette =
    [\<lparr>red = 255, green = 0, blue = 0\<rparr>, \<lparr>red = 215, green = 0, blue = 0\<rparr>,
     \<lparr>red = 176, green = 0, blue = 0\<rparr>, \<lparr>red = 136, green = 0, blue = 0\<rparr>,
     \<lparr>red = 88, green = 0, blue = 0\<rparr>, \<lparr>red = 41, green = 0, blue = 0\<rparr>,
     \<lparr>red = 5, green = 2, blue = 0\<rparr>, \<lparr>red = 48, green = 26, blue = 0\<rparr>,
     \<lparr>red = 91, green = 50, blue = 0\<rparr>, \<lparr>red = 135, green = 74, blue = 0\<rparr>,
     \<lparr>red = 178, green = 98, blue = 0\<rparr>, \<lparr>red = 221, green = 121, blue = 0\<rparr>,
     \<lparr>red = 255, green = 145, blue = 0\<rparr>, \<lparr>red = 255, green = 168, blue = 0\<rparr>,
     \<lparr>red = 255, green = 191, blue = 0\<rparr>, \<lparr>red = 255, green = 215, blue = 0\<rparr>]"
  by (simp add: firePalette_def resolve_def samples_def positions_def gp_firePalette_def
        lerp_def to_CRGB_def upt_rec)

lemma icePalette_entries:
  "icePalette =
    [\<lparr>red = 224, green = 240, blue = 255\<rparr>, \<lparr>red = 198, green = 227, blue = 255\<rparr>,
     \<lparr>red = 172, green = 215, blue = 255\<rparr>, \<lparr>red = 146, green = 202, blue = 255\<rparr>,
     \<lparr>red = 120, green = 190, blue = 255\<rparr>, \<lparr>red = 94, green = 177, blue = 255\<rparr>,
     \<lparr>red = 68, green = 165, blue = 255\<rparr>, \<lparr>red = 43, green = 152, blue = 255\<rparr>,
     \<lparr>red = 32, green = 141, blue = 242\<rparr>, \<lparr>red = 34, green = 130, blue = 217\<rparr>,
     \<lparr>red = 36, green = 119, blue = 193\<rparr>, \<lparr>red = 38, green = 108, blue = 169\<rparr>,
     \<lparr>red = 41, green = 97, blue = 144\<rparr>, \<lparr>red = 43, green = 86, blue = 120\<rparr>,
     \<lparr>red = 45, green = 75, blue = 96\<rparr>, \<lparr>red = 48, green = 64, blue = 72\<rparr>]"
  by (simp add: icePalette_def resolve_def samples_def positions_def gp_icePalette_def
        lerp_def to_CRGB_def upt_rec)

lemma wf_firePalette: "wf_palette firePalette"
  by (simp add: wf_palette_def firePalette_entries)

lemma wf_icePalette: "wf_palette icePalette"
  by (simp add: wf_palette_def icePalette_entries)

lemma fire_ice_dist: "palette_dist firePalette icePalette = 255"
  by (simp add: palette_dist_def CRGB_dist_def chan_dist_def firePalette_entries
        icePalette_entries)

section \<open>One channel of a blend step\<close>

lemma blend_channel_uint:
  "uint (blend_channel 12 c t) =
     (if uint c \<le> uint t then min (uint t) (uint c + 12) else max (uint t) (uint c - 12))"
  unfolding blend_channel_def by uint_arith

lemma blend_channel_same: "blend_channel step c c = c"
  by (simp add: blend_channel_def)

lemma chan_dist_blend: "chan_dist (blend_channel 12 c t) t = chan_dist c t - 12"
  unfolding chan_dist_def blend_channel_uint by (auto simp: min_def max_def)

lemma chan_dist_0: "chan_dist c t = 0 \<longleftrightarrow> c = t"
  unfolding chan_dist_def by (auto simp: word_uint_eq_iff)

lemma blend_channel_moves:
  "(chan_dist c t < 12 \<longrightarrow> blend_channel 12 c t = t)
   \<and> (12 \<le> chan_dist c t \<and> c < t \<longrightarrow> uint (blend_channel 12 c t) = uint c + 12)
   \<and> (12 \<le> chan_dist c t \<and> t < c \<longrightarrow> uint (blend_channel 12 c t) = uint c - 12)"
  unfolding chan_dist_def word_uint_eq_iff blend_channel_uint word_less_def
  by auto

lemma blend_channel_between:
  "chan_dist (blend_channel 12 c t) t \<le> chan_dist c t
   \<and> (c \<le> t \<longrightarrow> c \<le> blend_channel 12 c t \<and> blend_channel 12 c t \<le> t)
   \<and> (t \<le> c \<longrightarrow> t \<le> blend_channel 12 c t \<and> blend_channel 12 c t \<le> c)"
  unfolding chan_dist_def word_le_def blend_channel_uint
  by auto

section \<open>A blend step on whole palettes\<close>

lemma blend_CRGB_same: "blend_CRGB step c c = c"
  by (simp add: blend_CRGB_def blend_channel_same)

lemma nblend_same: "nblendPaletteTowardPalette p p step = p"
  unfolding nblendPaletteTowardPalette_def
  by (induction p) (simp_all add: blend_CRGB_same)

lemma nblend_length:
  "length (nblendPaletteTowardPalette current target step)
     = min (length current) (length target)"
  by (simp add: nblendPaletteTowardPalette_def)

lemma nblend_nth:
  "i < length current \<Longrightarrow> i < length target \<Longrightarrow>
   nblendPaletteTowardPalette current target step ! i
     = blend_CRGB step (current ! i) (target ! i)"
  by (simp add: nblendPaletteTowardPalette_def)

lemma Blend_Step_channel:
  assumes "wf_palette (currentPalette s)" and "wf_palette (targetPalette s)"
    and "i < 16" and "ch \<in> {red, green, blue}"
  shows "ch (currentPalette (Blend_Step s) ! i)
           = blend_channel 12 (ch (currentPalette s ! i)) (ch (targetPalette s ! i))"
proof -
  have i: "i < length (currentPalette s)" "i < length (targetPalette s)"
    using assms(1-3) by (simp_all add: wf_palette_def)
  show ?thesis
    using assms(4) by (auto simp: Blend_Step_def nblend_nth [OF i] blend_CRGB_def)
qed

lemma CRGB_dist_blend: "CRGB_dist (blend_CRGB 12 c t) t = CRGB_dist c t - 12"
  by (simp add: CRGB_dist_def blend_CRGB_def chan_dist_blend max_def)

lemma CRGB_dist_0: "CRGB_dist c t = 0 \<longleftrightarrow> c = t"
  by (cases c; cases t) (simp add: CRGB_dist_def chan_dist_0)

lemma palette_dist_blend:
  "length current = length target \<Longrightarrow>
   palette_dist (nblendPaletteTowardPalette current target 12) target
     = palette_dist current target - 12"
  unfolding palette_dist_def nblendPaletteTowardPalette_def
  by (induction current target rule: list_induct2) (simp_all add: CRGB_dist_blend max_def)

lemma palette_dist_0:
  "length current = length target \<Longrightarrow> palette_dist current target = 0 \<longleftrightarrow> current = target"
  unfolding palette_dist_def
  by (induction current target rule: list_induct2) (simp_all add: CRGB_dist_0)

lemma Blend_Step_pow_frame:
  "targetPalette ((Blend_Step ^^ n) s) = targetPalette s
   \<and> whichPalette ((Blend_Step ^^ n) s) = whichPalette s"
  by (induction n) (simp_all add: Blend_Step_def)

lemma Blend_Step_pow_length:
  "length (currentPalette s) = length (targetPalette s) \<Longrightarrow>
   length (currentPalette ((Blend_Step ^^ n) s)) = length (targetPalette s)"
  by (induction n) (simp_all add: Blend_Step_def nblend_length Blend_Step_pow_frame)

lemma Blend_Step_pow_dist:
  "length (currentPalette s) = length (targetPalette s) \<Longrightarrow>
   palette_dist (currentPalette ((Blend_Step ^^ n) s)) (targetPalette s)
     = palette_dist (currentPalette s) (targetPalette s) - 12 * n"
proof (induction n)
  case 0
  show ?case by simp
next
  case (Suc n)
  let ?s = "(Blend_Step ^^ n) s"
  have len: "length (currentPalette ?s) = length (targetPalette s)"
    using Suc.prems by (rule Blend_Step_pow_length)
  have "palette_dist (currentPalette (Blend_Step ?s)) (targetPalette s)
          = palette_dist (currentPalette ?s) (targetPalette s) - 12"
    using palette_dist_blend [OF len] by (simp add: Blend_Step_def Blend_Step_pow_frame)
  then show ?case using Suc.IH [OF Suc.prems] by simp
qed

section \<open>Advancing the target\<close>

lemma unat_numberOfPalettes: "unat (of_nat n :: uint8_t) = n mod 256"
  by (simp add: unat_of_nat)

lemma numberOfPalettes_zero: "(of_nat n :: uint8_t) = 0 \<longleftrightarrow> n mod 256 = 0"
  using unat_numberOfPalettes [of n] by (metis unat_eq_0)

lemma setNextColorPalette_fails:
  "length aps mod 256 = 0 \<Longrightarrow> setNextColorPalette aps s = Inl ModuloByZero"
  by (simp add: setNextColorPalette_def addmod8_def numberOfPalettes_zero)

lemma wrapped_index_less:
  assumes "n mod 256 \<noteq> 0"
  shows "unat (w mod (of_nat n :: uint8_t)) < n"
proof -
  have "unat (w mod (of_nat n :: uint8_t)) = unat w mod (n mod 256)"
    by (simp add: unat_mod unat_numberOfPalettes)
  also have "\<dots> < n mod 256" using assms by simp
  also have "\<dots> \<le> n" by simp
  finally show ?thesis .
qed

lemma setNextColorPalette_succeeds:
  assumes "length aps mod 256 \<noteq> 0"
  shows "setNextColorPalette aps s =
           Inr (s\<lparr>whichPalette := (whichPalette s + 1) mod of_nat (length aps),
                  targetPalette := aps ! unat ((whichPalette s + 1) mod (of_nat (length aps) :: uint8_t))\<rparr>)"
  using assms wrapped_index_less [OF assms, of "whichPalette s + 1"]
  by (simp add: setNextColorPalette_def addmod8_def numberOfPalettes_zero Let_def)

lemma next_index:
  assumes "0 < n" "n \<le> 255"
  shows "unat (w mod (of_nat n :: uint8_t)) = unat w mod n"
  using assms by (simp add: unat_mod unat_numberOfPalettes)

lemma unat_succ_small: "unat (w :: uint8_t) < 255 \<Longrightarrow> unat (w + 1) = unat w + 1"
  by (simp add: unat_word_ariths)

lemma calls_index:
  assumes L: "0 < length aps" "length aps \<le> 255"
  shows "\<exists>s'. calls (Suc k) aps s = Inr s'
            \<and> unat (whichPalette s') = (unat (whichPalette s + 1) + k) mod length aps
            \<and> targetPalette s' = aps ! unat (whichPalette s')
            \<and> currentPalette s' = currentPalette s"
proof (induction k arbitrary: s)
  case 0
  have nz: "length aps mod 256 \<noteq> 0" using L by simp
  show ?case
    by (simp add: setNextColorPalette_succeeds [OF nz] next_index [OF L])
next
  case (Suc k)
  have nz: "length aps mod 256 \<noteq> 0" using L by simp
  define s1 where "s1 = s\<lparr>whichPalette := (whichPalette s + 1) mod of_nat (length aps),
                  targetPalette := aps ! unat ((whichPalette s + 1) mod (of_nat (length aps) :: uint8_t))\<rparr>"
  have step: "setNextColorPalette aps s = Inr s1"
    by (simp add: s1_def setNextColorPalette_succeeds [OF nz])
  have w1: "unat (whichPalette s1) = unat (whichPalette s + 1) mod length aps"
    by (simp add: s1_def next_index [OF L])
  then have "unat (whichPalette s1) < 255" using L
    by (metis less_le_trans mod_less_divisor)
  then have w1': "unat (whichPalette s1 + 1) = unat (whichPalette s + 1) mod length aps + 1"
    using w1 by (simp add: unat_succ_small)
  from Suc.IH [of s1] obtain s' where s': "calls (Suc k) aps s1 = Inr s'"
     "unat (whichPalette s') = (unat (whichPalette s1 + 1) + k) mod length aps"
     "targetPalette s' = aps ! unat (whichPalette s')"
     "currentPalette s' = currentPalette s1" by blast
  have "calls (Suc (Suc k)) aps s = Inr s'" using step s'(1) by simp
  moreover have "unat (whichPalette s') = (unat (whichPalette s + 1) + Suc k) mod length aps"
  proof -
    have "(unat (whichPalette s + 1) mod length aps + (1 + k)) mod length aps
            = (unat (whichPalette s + 1) + (1 + k)) mod length aps"
      by (rule mod_add_left_eq)
    then show ?thesis using s'(2) w1' by (simp add: add.assoc)
  qed
  moreover have "currentPalette s' = currentPalette s" using s'(4) by (simp add: s1_def)
  ultimately show ?case using s'(3) by blast
qed

lemma setNextColorPalette_frame:
  "setNextColorPalette aps s = Inr s' \<Longrightarrow>
     currentPalette s' = currentPalette s
     \<and> s' = s\<lparr>whichPalette := whichPalette s', targetPalette := targetPalette s'\<rparr>"
  by (auto simp: setNextColorPalette_def Let_def split: sum.splits if_splits)

lemma setNextColorPalette_single:
  "setNextColorPalette [p] s = Inr (s\<lparr>whichPalette := 0, targetPalette := p\<rparr>)"
  by (simp add: setNextColorPalette_def addmod8_def)

lemma cycleColorPalette_single:
  assumes "currentPalette s = p" and "targetPalette s = p"
  shows "\<exists>s'. cycleColorPalette [p] sec ms s = Inr s' \<and> currentPalette s' = p \<and> targetPalette s' = p"
  using assms
  by (cases sec; cases ms)
     (simp_all add: cycleColorPalette_def setNextColorPalette_single Blend_Step_def nblend_same)

lemma run_single:
  assumes "currentPalette s = p" and "targetPalette s = p"
  shows "\<exists>s'. run [p] ticks s = Inr s' \<and> currentPalette s' = p \<and> targetPalette s' = p"
  using assms
proof (induction ticks arbitrary: s)
  case Nil
  then show ?case by simp
next
  case (Cons tick ticks)
  obtain sec ms where tick: "tick = (sec, ms)" by (cases tick)
  from cycleColorPalette_single [OF Cons.prems, of sec ms] obtain s1
    where s1: "cycleColorPalette [p] sec ms s = Inr s1" "currentPalette s1 = p" "targetPalette s1 = p"
    by blast
  from Cons.IH [OF s1(2,3)] show ?case using s1(1) tick by simp
qed

section \<open>Claims about the palette tables\<close>

text \<open>
  C9. Each of the five gradients of the file (\<open>firePalette\<close>, \<open>tealGreenGold\<close>,
  \<open>redRoseLavendar\<close>, \<open>icePalette\<close>, \<open>fairyPalette\<close>) resolves into a palette of exactly 16
  colors; every interpolated component lies in 0..255, and the bytes stored in the palette
  are those components, unchanged.
\<close>

theorem defined_palettes_resolve_to_16_valid_colors:
  "(wf_palette firePalette \<and> list_all valid_color (samples gp_firePalette)
      \<and> map channels firePalette = samples gp_firePalette)
   \<and> (wf_palette tealGreenGold \<and> list_all valid_color (samples gp_tealGreenGold)
      \<and> map channels tealGreenGold = samples gp_tealGreenGold)
   \<and> (wf_palette redRoseLavendar \<and> list_all valid_color (samples gp_redRoseLavendar)
      \<and> map channels redRoseLavendar = samples gp_redRoseLavendar)
   \<and> (wf_palette icePalette \<and> list_all valid_color (samples gp_icePalette)
      \<and> map channels icePalette = samples gp_icePalette)
   \<and> (wf_palette fairyPalette \<and> list_all valid_color (samples gp_fairyPalette)
      \<and> map channels fairyPalette = samples gp_fairyPalette)"
proof -
  have "wf_palette (resolve gp) \<and> list_all valid_color (samples gp)
          \<and> map channels (resolve gp) = samples gp" for gp
    by (simp add: wf_palette_def resolve_length samples_valid resolve_channels)
  then show ?thesis
    unfolding firePalette_def tealGreenGold_def redRoseLavendar_def icePalette_def
      fairyPalette_def
    by blast
qed

section \<open>Claims about the blend step\<close>

text \<open>
  C1. One Blend-Step (the blending primitive called with 12) moves every channel of every
  entry of the current palette toward the same channel of the target palette: a channel
  less than 12 away lands on the target value; a channel at least 12 away moves by
  exactly 12, upward when it is below the target and downward when it is above. The
  channels are read as integers, so the byte arithmetic does not wrap. \<open>ch\<close> ranges over
  the three channels, \<open>i\<close> over the 16 entries.
\<close>

theorem Blend_Step_moves_each_channel_by_12:
  assumes "wf_palette (currentPalette s)" and "wf_palette (targetPalette s)"
    and "i < 16" and "ch \<in> {red, green, blue}"
    and "c = ch (currentPalette s ! i)" and "t = ch (targetPalette s ! i)"
    and "c' = ch (currentPalette (Blend_Step s) ! i)"
  shows "(chan_dist c t < 12 \<longrightarrow> c' = t)
       \<and> (12 \<le> chan_dist c t \<and> c < t \<longrightarrow> uint c' = uint c + 12)
       \<and> (12 \<le> chan_dist c t \<and> t < c \<longrightarrow> uint c' = uint c - 12)"
proof -
  have "c' = blend_channel 12 c t"
    using Blend_Step_channel [OF assms(1-4)] assms(5-7) by simp
  then show ?thesis using blend_channel_moves [of c t] by simp
qed

theorem Blend_Step_moves_each_channel_by_12_witness:
  "wf_palette firePalette \<and> wf_palette icePalette \<and> (0::nat) < 16 \<and>
   uint (red (currentPalette (Blend_Step \<lparr>whichPalette = 0, currentPalette = firePalette,
     targetPalette = icePalette\<rparr>) ! 0)) = 243"
proof -
  let ?s = "\<lparr>whichPalette = 0, currentPalette = firePalette, targetPalette = icePalette\<rparr>"
  have h1: "wf_palette (currentPalette ?s)" by (simp add: wf_firePalette)
  have h2: "wf_palette (targetPalette ?s)" by (simp add: wf_icePalette)
  have h3: "(0::nat) < 16" by simp
  have h4: "red \<in> {red, green, blue}" by simp
  have d: "chan_dist (red (firePalette ! 0)) (red (icePalette ! 0)) = 31"
          "red (icePalette ! 0) < red (firePalette ! 0)"
          "uint (red (firePalette ! 0)) = 255"
    by (simp_all add: chan_dist_def firePalette_entries icePalette_entries)
  from Blend_Step_moves_each_channel_by_12 [OF h1 h2 h3 h4 refl refl refl] d h1 h2
  show ?thesis by simp
qed

text \<open>
  C3. One Blend-Step never moves a channel past its target: the distance of the channel
  to its target does not grow, and the new value lies between the old value and the
  target, on the side of the target where the old value was.
\<close>

theorem Blend_Step_no_overshoot:
  assumes "wf_palette (currentPalette s)" and "wf_palette (targetPalette s)"
    and "i < 16" and "ch \<in> {red, green, blue}"
    and "c = ch (currentPalette s ! i)" and "t = ch (targetPalette s ! i)"
    and "c' = ch (currentPalette (Blend_Step s) ! i)"
  shows "chan_dist c' t \<le> chan_dist c t
       \<and> (c \<le> t \<longrightarrow> c \<le> c' \<and> c' \<le> t)
       \<and> (t \<le> c \<longrightarrow> t \<le> c' \<and> c' \<le> c)"
proof -
  have "c' = blend_channel 12 c t"
    using Blend_Step_channel [OF assms(1-4)] assms(5-7) by simp
  then show ?thesis using blend_channel_between [of c t] by simp
qed

theorem Blend_Step_no_overshoot_witness:
  "wf_palette firePalette \<and> wf_palette icePalette \<and> (15::nat) < 16 \<and>
   green (icePalette ! 15) \<le> green (firePalette ! 15) \<and>
   green (icePalette ! 15) \<le> green (currentPalette (Blend_Step \<lparr>whichPalette = 0,
     currentPalette = firePalette, targetPalette = icePalette\<rparr>) ! 15) \<and>
   green (currentPalette (Blend_Step \<lparr>whichPalette = 0,
     currentPalette = firePalette, targetPalette = icePalette\<rparr>) ! 15)
     \<le> green (firePalette ! 15)"
proof -
  let ?s = "\<lparr>whichPalette = 0, currentPalette = firePalette, targetPalette = icePalette\<rparr>"
  have h1: "wf_palette (currentPalette ?s)" by (simp add: wf_firePalette)
  have h2: "wf_palette (targetPalette ?s)" by (simp add: wf_icePalette)
  have h3: "(15::nat) < 16" by simp
  have h4: "green \<in> {red, green, blue}" by simp
  have d: "green (icePalette ! 15) \<le> green (firePalette ! 15)"
    by (simp add: firePalette_entries icePalette_entries)
  from Blend_Step_no_overshoot [OF h1 h2 h3 h4 refl refl refl] d h1 h2
  show ?thesis by simp
qed

text \<open>
  C4. With the target fixed and \<open>d\<close> the largest channel distance between current and
  target, the current palette equals the target after \<open>n\<close> Blend-Steps exactly when
  \<open>n\<close> is at least \<open>d / 12\<close> rounded up: it is equal after that many steps and not
  before.
\<close>

theorem Blend_Step_reaches_target_after_ceil_d_12:
  assumes "wf_palette (currentPalette s)" and "wf_palette (targetPalette s)"
  shows "currentPalette ((Blend_Step ^^ n) s) = targetPalette s
           \<longleftrightarrow> (palette_dist (currentPalette s) (targetPalette s) + 11) div 12 \<le> n"
proof -
  have len: "length (currentPalette s) = length (targetPalette s)"
    using assms by (simp add: wf_palette_def)
  have "currentPalette ((Blend_Step ^^ n) s) = targetPalette s
          \<longleftrightarrow> palette_dist (currentPalette ((Blend_Step ^^ n) s)) (targetPalette s) = 0"
    using palette_dist_0 [OF Blend_Step_pow_length [OF len]] by simp
  also have "\<dots> \<longleftrightarrow> palette_dist (currentPalette s) (targetPalette s) - 12 * n = 0"
    by (simp add: Blend_Step_pow_dist [OF len])
  also have "\<dots> \<longleftrightarrow> (palette_dist (currentPalette s) (targetPalette s) + 11) div 12 \<le> n"
    by arith
  finally show ?thesis .
qed

theorem Blend_Step_reaches_target_after_ceil_d_12_witness:
  "wf_palette firePalette \<and> wf_palette icePalette \<and>
   currentPalette ((Blend_Step ^^ 22) \<lparr>whichPalette = 0, currentPalette = firePalette,
     targetPalette = icePalette\<rparr>) = icePalette \<and>
   currentPalette ((Blend_Step ^^ 21) \<lparr>whichPalette = 0, currentPalette = firePalette,
     targetPalette = icePalette\<rparr>) \<noteq> icePalette"
proof -
  let ?s = "\<lparr>whichPalette = 0, currentPalette = firePalette, targetPalette = icePalette\<rparr>"
  have h1: "wf_palette (currentPalette ?s)" by (simp add: wf_firePalette)
  have h2: "wf_palette (targetPalette ?s)" by (simp add: wf_icePalette)
  from Blend_Step_reaches_target_after_ceil_d_12 [OF h1 h2, of 22]
       Blend_Step_reaches_target_after_ceil_d_12 [OF h1 h2, of 21] h1 h2
  show ?thesis by (simp add: fire_ice_dist)
qed

text \<open>
  C7. Where the current palette equals the target palette, a Blend-Step changes nothing.
\<close>

theorem Blend_Step_fixed_point:
  "currentPalette s = targetPalette s \<Longrightarrow> Blend_Step s = s"
  by (simp add: Blend_Step_def nblend_same)

theorem Blend_Step_fixed_point_witness:
  "Blend_Step \<lparr>whichPalette = 0, currentPalette = firePalette, targetPalette = firePalette\<rparr>
     = \<lparr>whichPalette = 0, currentPalette = firePalette, targetPalette = firePalette\<rparr>"
  using Blend_Step_fixed_point
    [of "\<lparr>whichPalette = 0, currentPalette = firePalette, targetPalette = firePalette\<rparr>"]
  by simp

section \<open>Claims about advancing the target\<close>

text \<open>
  C2 (as amended). For an active list of \<open>L\<close> entries, \<open>1 \<le> L \<le> 255\<close>, and every \<open>K\<close>:
  from an index that is already below \<open>L\<close>, \<open>K\<close> calls of \<open>setNextColorPalette\<close> leave
  the index at \<open>(initial + K) mod L\<close>; from the startup byte 255 (the initializer \<open>-1\<close>),
  \<open>K \<ge> 1\<close> calls leave it at \<open>(K - 1) mod L\<close>. After each call the target palette is the
  entry of the active list at the index.
\<close>

theorem setNextColorPalette_K_calls_index:
  assumes "0 < length aps" and "length aps \<le> 255"
  shows "(unat (whichPalette s) < length aps \<longrightarrow>
            (\<exists>s'. calls K aps s = Inr s'
               \<and> unat (whichPalette s') = (unat (whichPalette s) + K) mod length aps
               \<and> (0 < K \<longrightarrow> targetPalette s' = aps ! unat (whichPalette s'))))
       \<and> (whichPalette s = 255 \<and> 0 < K \<longrightarrow>
            (\<exists>s'. calls K aps s = Inr s'
               \<and> unat (whichPalette s') = (K - 1) mod length aps
               \<and> targetPalette s' = aps ! unat (whichPalette s')))"
proof (cases K)
  case 0
  then show ?thesis by simp
next
  case (Suc k)
  from calls_index [OF assms, of k s] obtain s' where s': "calls (Suc k) aps s = Inr s'"
     "unat (whichPalette s') = (unat (whichPalette s + 1) + k) mod length aps"
     "targetPalette s' = aps ! unat (whichPalette s')" by blast
  have a: "unat (whichPalette s) < length aps \<Longrightarrow>
             unat (whichPalette s') = (unat (whichPalette s) + Suc k) mod length aps"
  proof -
    assume "unat (whichPalette s) < length aps"
    then have "unat (whichPalette s) < 255" using assms(2) by simp
    then show ?thesis using s'(2) by (simp add: unat_succ_small)
  qed
  have b: "whichPalette s = 255 \<Longrightarrow> unat (whichPalette s') = k mod length aps"
    using s'(2) by simp
  show ?thesis using Suc s'(1,3) a b by simp
qed

theorem setNextColorPalette_K_calls_index_witness:
  "0 < length [firePalette, icePalette] \<and> length [firePalette, icePalette] \<le> 255
   \<and> (\<exists>s'. calls 3 [firePalette, icePalette]
          \<lparr>whichPalette = 1, currentPalette = firePalette, targetPalette = icePalette\<rparr> = Inr s'
        \<and> unat (whichPalette s') = 0 \<and> targetPalette s' = firePalette)
   \<and> (\<exists>s'. calls 3 [firePalette, icePalette]
          \<lparr>whichPalette = 255, currentPalette = firePalette, targetPalette = firePalette\<rparr> = Inr s'
        \<and> unat (whichPalette s') = 0 \<and> targetPalette s' = firePalette)"
proof -
  have h1: "0 < length [firePalette, icePalette]" by simp
  have h2: "length [firePalette, icePalette] \<le> 255" by simp
  from setNextColorPalette_K_calls_index [OF h1 h2, of "\<lparr>whichPalette = 1, currentPalette = firePalette, targetPalette = icePalette\<rparr>" 3]
       setNextColorPalette_K_calls_index [OF h1 h2, of "\<lparr>whichPalette = 255, currentPalette = firePalette, targetPalette = firePalette\<rparr>" 3]
  show ?thesis by (auto simp: numeral_2_eq_2 [symmetric])
qed

text \<open>
  C2 as stated fails: from the startup byte 255 one call on a list of three leaves the
  index at 0, not at \<open>(255 + 1) mod 3 = 1\<close>; after no call at all the index is still 255,
  not \<open>255 mod 1 = 0\<close>; and on a list of 257 entries the byte-sized count is 1, so the
  index stays 0 where \<open>(0 + 1) mod 257 = 1\<close>.
\<close>

theorem setNextColorPalette_K_calls_index_counterexample:
  "map_sum id (unat \<circ> whichPalette)
     (calls 1 [firePalette, icePalette, fairyPalette]
        \<lparr>whichPalette = 255, currentPalette = firePalette, targetPalette = firePalette\<rparr>)
     = Inr 0
   \<and> (unat (255 :: uint8_t) + 1) mod length [firePalette, icePalette, fairyPalette] = 1
   \<and> map_sum id (unat \<circ> whichPalette)
     (calls 0 [firePalette]
        \<lparr>whichPalette = 255, currentPalette = firePalette, targetPalette = firePalette\<rparr>)
     = Inr 255
   \<and> (unat (255 :: uint8_t) + 0) mod length [firePalette] = 0
   \<and> map_sum id (unat \<circ> whichPalette)
     (calls 1 (replicate 257 firePalette)
        \<lparr>whichPalette = 0, currentPalette = firePalette, targetPalette = firePalette\<rparr>)
     = Inr 0
   \<and> (unat (0 :: uint8_t) + 1) mod length (replicate 257 firePalette) = 1"
  by (simp add: setNextColorPalette_def addmod8_def)

text \<open>
  C5 (as amended). \<open>setNextColorPalette\<close> returns, with the index strictly below the list
  length (so the array read is in bounds), exactly when the length of the active list is
  not a multiple of 256, in particular for every list of 1 to 255 entries. When the
  length is a multiple of 256 (the empty list, or 256 entries) the byte-sized count is 0
  and the call fails with the modulo by zero. No branch checks the count, and the
  out-of-bounds branch is never taken.
\<close>

theorem setNextColorPalette_total_unless_count_is_zero:
  "(length aps mod 256 \<noteq> 0 \<longrightarrow>
      (\<exists>s'. setNextColorPalette aps s = Inr s' \<and> unat (whichPalette s') < length aps))
   \<and> (length aps mod 256 = 0 \<longrightarrow> setNextColorPalette aps s = Inl ModuloByZero)
   \<and> setNextColorPalette aps s \<noteq> Inl IndexOutOfBounds"
proof (cases "length aps mod 256 = 0")
  case True
  then show ?thesis by (simp add: setNextColorPalette_fails)
next
  case False
  then show ?thesis
    using wrapped_index_less [OF False, of "whichPalette s + 1"]
    by (simp add: setNextColorPalette_succeeds [OF False])
qed

theorem setNextColorPalette_total_unless_count_is_zero_witness:
  "length [firePalette, icePalette] mod 256 \<noteq> 0
   \<and> (\<exists>s'. setNextColorPalette [firePalette, icePalette]
          \<lparr>whichPalette = 255, currentPalette = firePalette, targetPalette = firePalette\<rparr>
            = Inr s'
        \<and> unat (whichPalette s') < length [firePalette, icePalette])
   \<and> length ([] :: CRGBPalette16 list) mod 256 = 0
   \<and> setNextColorPalette []
        \<lparr>whichPalette = 255, currentPalette = firePalette, targetPalette = firePalette\<rparr>
          = Inl ModuloByZero"
  using setNextColorPalette_total_unless_count_is_zero [of "[firePalette, icePalette]"
      "\<lparr>whichPalette = 255, currentPalette = firePalette, targetPalette = firePalette\<rparr>"]
    setNextColorPalette_total_unless_count_is_zero [of "[]"
      "\<lparr>whichPalette = 255, currentPalette = firePalette, targetPalette = firePalette\<rparr>"]
  by simp

text \<open>
  C5 as stated fails: a list of 256 entries is not empty, and the call on it fails with
  the modulo by zero all the same.
\<close>

theorem setNextColorPalette_total_counterexample:
  "replicate 256 firePalette \<noteq> []
   \<and> setNextColorPalette (replicate 256 firePalette)
     \<lparr>whichPalette = 255, currentPalette = firePalette, targetPalette = firePalette\<rparr>
     = Inl ModuloByZero"
  by (simp add: setNextColorPalette_def addmod8_def)

text \<open>
  C6. With the active list as configured (\<open>firePalette\<close> alone), every call of
  \<open>setNextColorPalette\<close> sets the target to \<open>firePalette\<close> again; and from startup, after
  any run of main-loop iterations, whichever of the two timers fire in each, target and
  current are both still \<open>firePalette\<close>.
\<close>

theorem single_entry_list_stays_on_firePalette:
  "setNextColorPalette activePalettes s = Inr (s\<lparr>whichPalette := 0, targetPalette := firePalette\<rparr>)
   \<and> (\<exists>s0 s'. startup activePalettes = Inr s0
         \<and> currentPalette s0 = firePalette \<and> targetPalette s0 = firePalette
         \<and> run activePalettes ticks s0 = Inr s'
         \<and> targetPalette s' = firePalette \<and> currentPalette s' = firePalette)"
proof -
  let ?s0 = "\<lparr>whichPalette = - 1, currentPalette = firePalette, targetPalette = firePalette\<rparr>"
  have "startup activePalettes = Inr ?s0" by (simp add: startup_def activePalettes_def)
  moreover from run_single [of ?s0 firePalette ticks] obtain s'
    where "run activePalettes ticks ?s0 = Inr s'" "currentPalette s' = firePalette"
      "targetPalette s' = firePalette"
    by (auto simp: activePalettes_def)
  ultimately show ?thesis by (simp add: activePalettes_def setNextColorPalette_single)
qed

text \<open>
  C8. A call of \<open>setNextColorPalette\<close> that returns changes the index and the target
  palette only: the current palette is the one before the call. A main-loop iteration in
  which the blend timer does not fire leaves the current palette unchanged as well.
\<close>

theorem setNextColorPalette_keeps_currentPalette:
  "(setNextColorPalette aps s = Inr s' \<longrightarrow>
      currentPalette s' = currentPalette s
      \<and> s' = s\<lparr>whichPalette := whichPalette s', targetPalette := targetPalette s'\<rparr>)
   \<and> (cycleColorPalette aps every_n_seconds False s = Inr s'' \<longrightarrow>
      currentPalette s'' = currentPalette s)"
proof -
  have "cycleColorPalette aps every_n_seconds False s = Inr s'' \<Longrightarrow>
      currentPalette s'' = currentPalette s"
    by (cases every_n_seconds)
       (auto simp: cycleColorPalette_def split: sum.splits dest: setNextColorPalette_frame)
  then show ?thesis using setNextColorPalette_frame [of aps s s'] by blast
qed

theorem setNextColorPalette_keeps_currentPalette_witness:
  "setNextColorPalette [firePalette, icePalette]
      \<lparr>whichPalette = 0, currentPalette = firePalette, targetPalette = firePalette\<rparr>
     = Inr \<lparr>whichPalette = 1, currentPalette = firePalette, targetPalette = icePalette\<rparr>
   \<and> cycleColorPalette [firePalette, icePalette] True False
      \<lparr>whichPalette = 0, currentPalette = firePalette, targetPalette = firePalette\<rparr>
     = Inr \<lparr>whichPalette = 1, currentPalette = firePalette, targetPalette = icePalette\<rparr>
   \<and> currentPalette \<lparr>whichPalette = 1, currentPalette = firePalette, targetPalette = icePalette\<rparr>
     = currentPalette \<lparr>whichPalette = 0, currentPalette = firePalette, targetPalette = firePalette\<rparr>"
proof -
  let ?s = "\<lparr>whichPalette = 0, currentPalette = firePalette, targetPalette = firePalette\<rparr>"
  let ?s' = "\<lparr>whichPalette = 1, currentPalette = firePalette, targetPalette = icePalette\<rparr>"
  have h1: "setNextColorPalette [firePalette, icePalette] ?s = Inr ?s'"
    by (simp add: setNextColorPalette_def addmod8_def)
  have h2: "cycleColorPalette [firePalette, icePalette] True False ?s = Inr ?s'"
    by (simp add: cycleColorPalette_def h1)
  from setNextColorPalette_keeps_currentPalette [of "[firePalette, icePalette]" ?s ?s' True ?s'] h1 h2
  show ?thesis by simp
qed

text \<open>
  C10 (as amended). The index starts at 255 (the byte of \<open>-1\<close>) and both buffers at entry 0
  of the active list. For a list of at most 255 entries the first call of
  \<open>setNextColorPalette\<close> sets the index to 0 and the target to entry 0, the palette it
  already held, and leaves the current palette alone; when the list has more than one
  entry, the second call sets the index to 1 and the target to entry 1.
\<close>

theorem first_call_selects_entry_0:
  assumes "startup aps = Inr s0" and "length aps \<le> 255"
  shows "whichPalette s0 = 255 \<and> currentPalette s0 = aps ! 0 \<and> targetPalette s0 = aps ! 0
       \<and> (\<exists>s1. setNextColorPalette aps s0 = Inr s1
             \<and> whichPalette s1 = 0 \<and> targetPalette s1 = aps ! 0
             \<and> targetPalette s1 = targetPalette s0 \<and> currentPalette s1 = currentPalette s0
             \<and> (1 < length aps \<longrightarrow>
                  (\<exists>s2. setNextColorPalette aps s1 = Inr s2
                     \<and> whichPalette s2 = 1 \<and> targetPalette s2 = aps ! 1)))"
proof -
  from assms(1) obtain p ps where aps: "aps = p # ps"
    and s0: "s0 = \<lparr>whichPalette = - 1, currentPalette = p, targetPalette = p\<rparr>"
    by (auto simp: startup_def split: list.splits)
  have L: "0 < length aps" using aps by simp
  have nz: "length aps mod 256 \<noteq> 0" using L assms(2) by simp
  define s1 where "s1 = s0\<lparr>whichPalette := 0, targetPalette := aps ! 0\<rparr>"
  have step1: "setNextColorPalette aps s0 = Inr s1"
    by (simp add: setNextColorPalette_succeeds [OF nz] s0 s1_def)
  have step2: "setNextColorPalette aps s1 = Inr (s1\<lparr>whichPalette := 1, targetPalette := aps ! 1\<rparr>)"
    if "1 < length aps"
  proof -
    have "unat ((1 :: uint8_t) mod of_nat (length aps)) = unat (1 :: uint8_t) mod length aps"
      by (rule next_index [OF L assms(2)])
    then have "unat ((1 :: uint8_t) mod of_nat (length aps)) = 1"
      using that by simp
    then have "(1 :: uint8_t) mod of_nat (length aps) = 1"
      by (metis unat_1 word_unat_eq_iff)
    then show ?thesis by (simp add: setNextColorPalette_succeeds [OF nz] s1_def)
  qed
  show ?thesis using step1 step2 by (simp add: s0 s1_def aps)
qed

theorem first_call_selects_entry_0_witness:
  "startup [firePalette, icePalette]
     = Inr \<lparr>whichPalette = 255, currentPalette = firePalette, targetPalette = firePalette\<rparr>
   \<and> length [firePalette, icePalette] \<le> 255
   \<and> (\<exists>s1. setNextColorPalette [firePalette, icePalette]
         \<lparr>whichPalette = 255, currentPalette = firePalette, targetPalette = firePalette\<rparr>
           = Inr s1
         \<and> whichPalette s1 = 0 \<and> targetPalette s1 = firePalette
         \<and> (\<exists>s2. setNextColorPalette [firePalette, icePalette] s1 = Inr s2
               \<and> whichPalette s2 = 1 \<and> targetPalette s2 = icePalette))"
proof -
  let ?s0 = "\<lparr>whichPalette = 255, currentPalette = firePalette, targetPalette = firePalette\<rparr>"
  have h1: "startup [firePalette, icePalette] = Inr ?s0" by (simp add: startup_def)
  have h2: "length [firePalette, icePalette] \<le> 255" by simp
  from first_call_selects_entry_0 [OF h1 h2] h1 h2 show ?thesis by auto
qed

text \<open>
  C10 as stated fails on a list of 257 entries: the byte-sized count is 1, so the second
  call leaves the index at 0 and the target on entry 0, although entry 1 is another
  palette.
\<close>

theorem first_call_selects_entry_0_counterexample:
  "startup (firePalette # replicate 256 icePalette)
     = Inr \<lparr>whichPalette = 255, currentPalette = firePalette, targetPalette = firePalette\<rparr>
   \<and> calls 2 (firePalette # replicate 256 icePalette)
       \<lparr>whichPalette = 255, currentPalette = firePalette, targetPalette = firePalette\<rparr>
     = Inr \<lparr>whichPalette = 0, currentPalette = firePalette, targetPalette = firePalette\<rparr>
   \<and> (firePalette # replicate 256 icePalette) ! 1 = icePalette
   \<and> firePalette \<noteq> icePalette"
proof -
  let ?aps = "firePalette # replicate 256 icePalette"
  have n: "(257 :: uint8_t) = 1" by simp
  have step: "setNextColorPalette ?aps s = Inr (s\<lparr>whichPalette := 0, targetPalette := firePalette\<rparr>)"
    for s
    by (simp add: setNextColorPalette_def addmod8_def n)
  have "calls 2 ?aps s = calls (Suc (Suc 0)) ?aps s" for s
    by (simp add: numeral_2_eq_2)
  then have "calls 2 ?aps
       \<lparr>whichPalette = 255, currentPalette = firePalette, targetPalette = firePalette\<rparr>
     = Inr \<lparr>whichPalette = 0, currentPalette = firePalette, targetPalette = firePalette\<rparr>"
    by (simp add: step)
  moreover have "firePalette \<noteq> icePalette"
    by (simp add: firePalette_entries icePalette_entries)
  ultimately show ?thesis by (simp add: startup_def)
qed

end
